theory Spec2Isabelle
  imports Main "HOL-Library.AList"
begin

section \<open>The web channel of NanoPod: rooms, subscribers and the HTTP handlers\<close>

text \<open>
  A shallow embedding of \<open>WebChannel\<close> (the multi-room web gateway): the table of
  event-stream subscribers per room, publishing to a room, the handlers for opening a
  stream, sending a message, reading the history and creating a room, and shutdown.

  Each handler is a function from the hub and what it reads from outside (\<open>env\<close>) to the
  new hub and the list of effects it performed, in order. The injected callbacks and the
  store are taken to return normally; \<open>res.write\<close> returns a flag, as in Node, and a
  failed write is a write that returned \<open>False\<close>.

  A JavaScript string is an Isabelle \<open>string\<close>, a list of characters below 256.
  \<open>toLowerCase\<close> is modelled on the letters \<open>A\<close> to \<open>Z\<close>: the other characters below
  256 that JavaScript lower-cases are outside \<open>[a-z0-9]\<close> before and after.
\<close>

subsection \<open>Strings: deriving a room identifier\<close>

text \<open>
  \<open>name.toLowerCase().trim().replace(/[^a-z0-9]+/g, '-').replace(/^-|-$/g, '')\<close>:
  \<open>replace_runs\<close> puts one dash for every maximal run of characters outside
  \<open>[a-z0-9]\<close>; \<open>strip_edge_dashes\<close> deletes a dash at the very start and a dash at
  the very end of what then remains.
\<close>

definition is_lower_alnum :: "char \<Rightarrow> bool" where
  "is_lower_alnum c =
     (let n = (of_char c :: nat) in (97 \<le> n \<and> n \<le> 122) \<or> (48 \<le> n \<and> n \<le> 57))"

definition lower_char :: "char \<Rightarrow> char" where
  "lower_char c =
     (let n = (of_char c :: nat) in if 65 \<le> n \<and> n \<le> 90 then char_of (n + 32) else c)"

definition toLowerCase :: "string \<Rightarrow> string" where
  "toLowerCase s = map lower_char s"

definition is_whitespace :: "char \<Rightarrow> bool" where
  "is_whitespace c = ((of_char c :: nat) \<in> {9, 10, 11, 12, 13, 32, 160})"

definition trim :: "string \<Rightarrow> string" where
  "trim s = rev (dropWhile is_whitespace (rev (dropWhile is_whitespace s)))"

function replace_runs :: "string \<Rightarrow> string" where
  "replace_runs [] = []"
| "replace_runs (c # cs) =
     (if is_lower_alnum c then c # replace_runs cs
      else CHR ''-'' # replace_runs (dropWhile (\<lambda>d. \<not> is_lower_alnum d) cs))"
  by pat_completeness auto
termination
  by (relation "measure length") (auto simp: less_Suc_eq_le length_dropWhile_le)

definition strip_edge_dashes :: "string \<Rightarrow> string" where
  "strip_edge_dashes s =
     (let s1 = (case s of [] \<Rightarrow> [] | c # cs \<Rightarrow> if c = CHR ''-'' then cs else s)
      in if s1 \<noteq> [] \<and> last s1 = CHR ''-'' then butlast s1 else s1)"

definition slugify :: "string \<Rightarrow> string" where
  "slugify name = strip_edge_dashes (replace_runs (trim (toLowerCase name)))"


subsection \<open>JSON values and JavaScript's view of them\<close>

text \<open>
  The value \<open>JSON.parse\<close> returns. \<open>JObj\<close> lists the own properties of the parsed
  object. Numbers are kept as integers: the handlers only ask whether a number is a
  string (it is not) and whether it is zero.
\<close>

datatype json =
    JNull
  | JBool bool
  | JNum int
  | JStr string
  | JArr "json list"
  | JObj "(string \<times> json) list"

text \<open>
  \<open>const { p } = v\<close> for \<open>v\<close> other than \<open>null\<close>: the property of an object, and
  \<open>undefined\<close> (\<open>None\<close>) on a missing property and on a primitive or an array
  (the handlers destructure \<open>text\<close> and \<open>name\<close> only).
\<close>

fun get_prop :: "json \<Rightarrow> string \<Rightarrow> json option" where
  "get_prop (JObj kvs) p = map_of kvs p"
| "get_prop _ p = None"

text \<open>JavaScript truthiness, with \<open>None\<close> for \<open>undefined\<close>; \<open>!v\<close> is its negation.\<close>

fun truthy :: "json option \<Rightarrow> bool" where
  "truthy None = False"
| "truthy (Some JNull) = False"
| "truthy (Some (JBool b)) = b"
| "truthy (Some (JNum n)) = (n \<noteq> 0)"
| "truthy (Some (JStr s)) = (s \<noteq> [])"
| "truthy (Some (JArr _)) = True"
| "truthy (Some (JObj _)) = True"

text \<open>\<open>typeof v === 'string'\<close>.\<close>

fun typeof_string :: "json option \<Rightarrow> bool" where
  "typeof_string (Some (JStr _)) = True"
| "typeof_string _ = False"

fun string_of :: "json option \<Rightarrow> string" where
  "string_of (Some (JStr s)) = s"
| "string_of _ = []"

definition startsWith :: "string \<Rightarrow> string \<Rightarrow> bool" where
  "startsWith s p = (take (length p) s = p)"

subsection \<open>Messages, rooms, subscribers\<close>

record NewMessage =
  msg_id :: string
  chat_jid :: string
  sender :: string
  sender_name :: string
  content :: string
  timestamp :: string
  is_from_me :: bool
  is_bot_message :: bool

text \<open>The object \<open>JSON.stringify\<close> is applied to, property by property.\<close>

definition message_json :: "NewMessage \<Rightarrow> json" where
  "message_json m = JObj
     [(''id'', JStr (msg_id m)),
      (''chat_jid'', JStr (chat_jid m)),
      (''sender'', JStr (sender m)),
      (''sender_name'', JStr (sender_name m)),
      (''content'', JStr (content m)),
      (''timestamp'', JStr (timestamp m)),
      (''is_from_me'', JBool (is_from_me m)),
      (''is_bot_message'', JBool (is_bot_message m))]"

record RegisteredGroup =
  group_name :: string
  folder :: string
  trigger :: string
  added_at :: string
  requiresTrigger :: bool

text \<open>
  \<open>SseClient\<close>: the response object and the keepalive timer, each a handle. The
  source compares clients by object identity (\<open>c !== client\<close>); two clients made by
  \<open>handleSse\<close> never share a timer handle, so equality of the pair of handles is that
  identity.
\<close>

record SseClient =
  res :: nat
  keepAliveTimer :: nat

text \<open>
  What is written to an event stream: a comment line (\<open>:ok\<close>, \<open>:ping\<close>) or a named
  event whose data is the serialisation of a JSON value. A serialised value is
  represented by the value itself.
\<close>

datatype sse_chunk =
    SseComment string
  | SseEvent string json

text \<open>
  Everything a handler does beyond changing the hub: writes to response objects (the
  flag of \<open>Write\<close> is what \<open>res.write\<close> returned), timers, and calls of the injected
  callbacks and of the store.
\<close>

datatype effect =
    WriteHead nat nat
  | Write nat sse_chunk bool
  | End nat
  | EndJson nat json
  | ReqDestroy nat
  | SetInterval nat nat
  | ClearInterval nat
  | ServerClose
  | StoreMessageDirect NewMessage
  | OnMessage string NewMessage
  | OnChatMetadata string string string string bool
  | OnRegisterGroup string RegisteredGroup

text \<open>
  The hub: \<open>clientsByRoom\<close> is a JavaScript \<open>Map\<close>, kept as the list of its entries
  in insertion order; \<open>server\<close> says whether \<open>this.server\<close> is set; \<open>nextTimer\<close> is
  the next handle \<open>setInterval\<close> hands out.
\<close>

record hub =
  clientsByRoom :: "(string \<times> SseClient list) list"
  connected :: bool
  server :: bool
  nextTimer :: nat

text \<open>
  What a handler reads from outside the hub during one call: the constructor options
  (\<open>registeredGroups\<close>, whether \<open>onRegisterGroup\<close> was given), the configured assistant
  name, the store's \<open>getRecentMessages\<close>, \<open>JSON.parse\<close> (\<open>None\<close> when it throws), the
  clock and the random suffix, and for each response object whether a write to it is
  accepted.
\<close>

record env =
  ASSISTANT_NAME :: string
  registeredGroups :: "string \<Rightarrow> RegisteredGroup option"
  has_onRegisterGroup :: bool
  getRecentMessages :: "string \<Rightarrow> nat \<Rightarrow> json"
  JSON_parse :: "string \<Rightarrow> json option"
  Date_now :: string
  randomBytes_hex :: string
  toISOString :: string
  write_accepted :: "nat \<Rightarrow> bool"

definition initial_hub :: hub where
  "initial_hub = \<lparr>clientsByRoom = [], connected = False, server = False, nextTimer = 0\<rparr>"

subsection \<open>The Map of subscribers\<close>

definition Map_get :: "(string \<times> 'v) list \<Rightarrow> string \<Rightarrow> 'v option" where
  "Map_get m k = map_of m k"

definition Map_has :: "(string \<times> 'v) list \<Rightarrow> string \<Rightarrow> bool" where
  "Map_has m k = (map_of m k \<noteq> None)"

definition Map_set :: "string \<Rightarrow> 'v \<Rightarrow> (string \<times> 'v) list \<Rightarrow> (string \<times> 'v) list" where
  "Map_set k v m = AList.update k v m"

definition Map_delete :: "string \<Rightarrow> (string \<times> 'v) list \<Rightarrow> (string \<times> 'v) list" where
  "Map_delete k m = AList.delete k m"

text \<open>\<open>this.clientsByRoom.get(jid) || []\<close>.\<close>

definition roomClients :: "hub \<Rightarrow> string \<Rightarrow> SseClient list" where
  "roomClients s jid = (case Map_get (clientsByRoom s) jid of None \<Rightarrow> [] | Some clients \<Rightarrow> clients)"

definition allClients :: "hub \<Rightarrow> SseClient list" where
  "allClients s = concat (map snd (clientsByRoom s))"

subsection \<open>Publishing\<close>

text \<open>
  The loop \<open>for (const client of clients) client.res.write(...)\<close>: one write per
  client, in the order of the array; what \<open>write\<close> returns is dropped.
\<close>

fun broadcast :: "(nat \<Rightarrow> bool) \<Rightarrow> SseClient list \<Rightarrow> sse_chunk \<Rightarrow> effect list" where
  "broadcast w [] d = []"
| "broadcast w (client # clients) d = Write (res client) d (w (res client)) # broadcast w clients d"

definition bot_message :: "env \<Rightarrow> string \<Rightarrow> string \<Rightarrow> string option \<Rightarrow> NewMessage" where
  "bot_message e jid text senderName =
     \<lparr>msg_id = ''bot-'' @ Date_now e @ ''-'' @ randomBytes_hex e,
      chat_jid = jid,
      sender = (case senderName of None \<Rightarrow> ''bot'' | Some n \<Rightarrow> n),
      sender_name = (case senderName of None \<Rightarrow> ASSISTANT_NAME e | Some n \<Rightarrow> n),
      content = text,
      timestamp = toISOString e,
      is_from_me = False,
      is_bot_message = True\<rparr>"

definition sendMessage ::
  "env \<Rightarrow> hub \<Rightarrow> string \<Rightarrow> string \<Rightarrow> string option \<Rightarrow> hub \<times> effect list" where
  "sendMessage e s jid text senderName =
     (if \<not> startsWith jid ''web:'' then (s, [])
      else
        let msg = bot_message e jid text senderName;
            data = message_json msg;
            clients = roomClients s jid
        in (s, StoreMessageDirect msg # broadcast (write_accepted e) clients (SseEvent ''message'' data)))"

subsection \<open>Connecting and shutting down\<close>

definition connect :: "bool \<Rightarrow> hub \<Rightarrow> hub" where
  "connect listening s = s\<lparr>server := True, connected := (if listening then True else connected s)\<rparr>"

fun end_clients :: "SseClient list \<Rightarrow> effect list" where
  "end_clients [] = []"
| "end_clients (client # clients) =
     ClearInterval (keepAliveTimer client) # End (res client) # end_clients clients"

fun end_rooms :: "(string \<times> SseClient list) list \<Rightarrow> effect list" where
  "end_rooms [] = []"
| "end_rooms ((jid, clients) # rooms) = end_clients clients @ end_rooms rooms"

definition disconnect :: "hub \<Rightarrow> hub \<times> effect list" where
  "disconnect s =
     (s\<lparr>connected := False, clientsByRoom := []\<rparr>,
      end_rooms (clientsByRoom s) @ (if server s then [ServerClose] else []))"

subsection \<open>Opening a stream, and its close event\<close>

definition handleSse :: "env \<Rightarrow> hub \<Rightarrow> nat \<Rightarrow> string \<Rightarrow> hub \<times> effect list" where
  "handleSse e s rs room =
     (let jid = ''web:'' @ room;
          timer = nextTimer s;
          client = \<lparr>res = rs, keepAliveTimer = timer\<rparr>;
          m1 = (if \<not> Map_has (clientsByRoom s) jid then Map_set jid [] (clientsByRoom s)
                else clientsByRoom s);
          m2 = (case Map_get m1 jid of
                  None \<Rightarrow> m1
                | Some clients \<Rightarrow> Map_set jid (clients @ [client]) m1)
      in (s\<lparr>clientsByRoom := m2, nextTimer := Suc timer\<rparr>,
          [WriteHead rs 200, Write rs (SseComment ''ok'') (write_accepted e rs), SetInterval timer rs]))"

text \<open>The callback of \<open>setInterval\<close>, once per tick.\<close>

definition keepAlive_tick :: "env \<Rightarrow> nat \<Rightarrow> effect list" where
  "keepAlive_tick e rs = [Write rs (SseComment ''ping'') (write_accepted e rs)]"

text \<open>The callback of \<open>res.on('close', ...)\<close> that \<open>handleSse\<close> registers for \<open>client\<close>.\<close>

definition on_close :: "SseClient \<Rightarrow> string \<Rightarrow> hub \<Rightarrow> hub \<times> effect list" where
  "on_close client jid s =
     (case Map_get (clientsByRoom s) jid of
        None \<Rightarrow> (s, [ClearInterval (keepAliveTimer client)])
      | Some clients \<Rightarrow>
          let filtered = filter (\<lambda>c. c \<noteq> client) clients
          in if length filtered = 0
             then (s\<lparr>clientsByRoom := Map_delete jid (clientsByRoom s)\<rparr>,
                   [ClearInterval (keepAliveTimer client)])
             else (s\<lparr>clientsByRoom := Map_set jid filtered (clientsByRoom s)\<rparr>,
                   [ClearInterval (keepAliveTimer client)]))"

subsection \<open>Reading a request body\<close>

text \<open>
  The \<open>data\<close> callbacks: \<open>None\<close> when the accumulated body grew beyond the limit (the
  request is destroyed and \<open>end\<close> never fires), else the whole body.
\<close>

fun read_body :: "nat \<Rightarrow> string \<Rightarrow> string list \<Rightarrow> string option" where
  "read_body limit body [] = Some body"
| "read_body limit body (chunk # chunks) =
     (if length (body @ chunk) > limit then None
      else read_body limit (body @ chunk) chunks)"

definition json_error :: "nat \<Rightarrow> nat \<Rightarrow> string \<Rightarrow> effect list" where
  "json_error rs status msg = [WriteHead rs status, EndJson rs (JObj [(''error'', JStr msg)])]"

definition payload_too_large :: "nat \<Rightarrow> effect list" where
  "payload_too_large rs = json_error rs 413 ''Payload too large'' @ [ReqDestroy rs]"

subsection \<open>The send endpoint\<close>

definition user_message :: "env \<Rightarrow> string \<Rightarrow> string \<Rightarrow> NewMessage" where
  "user_message e jid text =
     \<lparr>msg_id = ''web-'' @ Date_now e @ ''-'' @ randomBytes_hex e,
      chat_jid = jid,
      sender = ''user'',
      sender_name = ''You'',
      content = trim text,
      timestamp = toISOString e,
      is_from_me = True,
      is_bot_message = False\<rparr>"

definition handleSend_end :: "env \<Rightarrow> hub \<Rightarrow> nat \<Rightarrow> string \<Rightarrow> string \<Rightarrow> hub \<times> effect list" where
  "handleSend_end e s rs jid body =
     (case JSON_parse e body of
        None \<Rightarrow> (s, json_error rs 400 ''Invalid JSON'')
      | Some JNull \<Rightarrow> (s, json_error rs 400 ''Invalid JSON'')
      | Some parsed \<Rightarrow>
          let text = get_prop parsed ''text'' in
          if \<not> truthy text \<or> \<not> typeof_string text
          then (s, json_error rs 400 ''Missing \"text\" field'')
          else
            (case registeredGroups e jid of
               None \<Rightarrow> (s, json_error rs 404 ''Room not found'')
             | Some g \<Rightarrow>
                 let msg = user_message e jid (string_of text);
                     data = message_json msg;
                     clients = roomClients s jid
                 in (s,
                     [OnChatMetadata jid (timestamp msg) (group_name g) ''web'' False,
                      OnMessage jid msg]
                     @ broadcast (write_accepted e) clients (SseEvent ''message'' data)
                     @ [WriteHead rs 200,
                        EndJson rs (JObj [(''ok'', JBool True), (''message'', data)])])))"

definition handleSend :: "env \<Rightarrow> hub \<Rightarrow> nat \<Rightarrow> string \<Rightarrow> string list \<Rightarrow> hub \<times> effect list" where
  "handleSend e s rs room chunks =
     (let jid = ''web:'' @ room in
      case read_body 100000 [] chunks of
        None \<Rightarrow> (s, payload_too_large rs)
      | Some body \<Rightarrow> handleSend_end e s rs jid body)"

subsection \<open>The history endpoint\<close>

definition handleHistory :: "env \<Rightarrow> hub \<Rightarrow> nat \<Rightarrow> string \<Rightarrow> hub \<times> effect list" where
  "handleHistory e s rs room =
     (let jid = ''web:'' @ room;
          messages = getRecentMessages e jid 50
      in (s, [WriteHead rs 200, EndJson rs messages]))"

subsection \<open>Creating a room\<close>

definition new_group :: "env \<Rightarrow> string \<Rightarrow> string \<Rightarrow> RegisteredGroup" where
  "new_group e name slug =
     \<lparr>group_name = name,
      folder = ''web-'' @ slug,
      trigger = ''@'' @ ASSISTANT_NAME e,
      added_at = toISOString e,
      requiresTrigger = False\<rparr>"

definition handleCreateRoom_end :: "env \<Rightarrow> hub \<Rightarrow> nat \<Rightarrow> string \<Rightarrow> hub \<times> effect list" where
  "handleCreateRoom_end e s rs body =
     (case JSON_parse e body of
        None \<Rightarrow> (s, json_error rs 400 ''Invalid JSON'')
      | Some JNull \<Rightarrow> (s, json_error rs 400 ''Invalid JSON'')
      | Some parsed \<Rightarrow>
          let name = get_prop parsed ''name'' in
          if \<not> truthy name \<or> \<not> typeof_string name
          then (s, json_error rs 400 ''Missing \"name\" field'')
          else
            let slug = slugify (string_of name) in
            if slug = [] then (s, json_error rs 400 ''Invalid room name'')
            else
              let jid = ''web:'' @ slug in
              (case registeredGroups e jid of
                 Some existing \<Rightarrow>
                   (s, [WriteHead rs 409,
                        EndJson rs (JObj [(''error'', JStr ''Room already exists''),
                                          (''slug'', JStr slug)])])
               | None \<Rightarrow>
                   let group = new_group e (string_of name) slug in
                   (s, [OnRegisterGroup jid group,
                        OnChatMetadata jid (added_at group) (string_of name) ''web'' False,
                        WriteHead rs 201,
                        EndJson rs (JObj [(''slug'', JStr slug),
                                          (''name'', JStr (string_of name)),
                                          (''jid'', JStr jid)])])))"

definition handleCreateRoom :: "env \<Rightarrow> hub \<Rightarrow> nat \<Rightarrow> string list \<Rightarrow> hub \<times> effect list" where
  "handleCreateRoom e s rs chunks =
     (if \<not> has_onRegisterGroup e
      then (s, json_error rs 500 ''Room creation not available'')
      else
        case read_body 10000 [] chunks of
          None \<Rightarrow> (s, payload_too_large rs)
        | Some body \<Rightarrow> handleCreateRoom_end e s rs body)"

subsection \<open>Runs of the hub\<close>

datatype event =
    Connect bool
  | Subscribe env nat string
  | Close SseClient string
  | Deliver env string string "string option"
  | Send env nat string "string list"
  | History env nat string
  | CreateRoom env nat "string list"
  | Shutdown

fun step :: "hub \<Rightarrow> event \<Rightarrow> hub" where
  "step s (Connect listening) = connect listening s"
| "step s (Subscribe e rs room) = fst (handleSse e s rs room)"
| "step s (Close client jid) = fst (on_close client jid s)"
| "step s (Deliver e jid text senderName) = fst (sendMessage e s jid text senderName)"
| "step s (Send e rs room chunks) = fst (handleSend e s rs room chunks)"
| "step s (History e rs room) = fst (handleHistory e s rs room)"
| "step s (CreateRoom e rs chunks) = fst (handleCreateRoom e s rs chunks)"
| "step s Shutdown = fst (disconnect s)"

text \<open>
  The HTTP server makes a new response object for every request: a stream is never
  opened on the response object of a subscriber that is still registered.
\<close>

fun admissible :: "hub \<Rightarrow> event \<Rightarrow> bool" where
  "admissible s (Subscribe e rs room) = (rs \<notin> set (map res (allClients s)))"
| "admissible s _ = True"

fun run :: "hub \<Rightarrow> event list \<Rightarrow> hub option" where
  "run s [] = Some s"
| "run s (ev # evs) = (if admissible s ev then run (step s ev) evs else None)"

text \<open>The targets and payloads of the stream writes in a trace.\<close>

fun sse_writes :: "effect list \<Rightarrow> (nat \<times> sse_chunk) list" where
  "sse_writes [] = []"
| "sse_writes (Write rs d ok # effs) = (rs, d) # sse_writes effs"
| "sse_writes (_ # effs) = sse_writes effs"

subsection \<open>Well-formed subscriber tables\<close>

text \<open>
  What every run keeps true of the table: one entry per key, no key with an empty list,
  every key in the gateway's address space, and no response object registered twice.
\<close>

definition no_empty_room :: "(string \<times> SseClient list) list \<Rightarrow> bool" where
  "no_empty_room m = list_all (\<lambda>(jid, clients). clients \<noteq> []) m"

definition wf_hub :: "hub \<Rightarrow> bool" where
  "wf_hub s =
     (distinct (map fst (clientsByRoom s)) \<and>
      (\<forall>jid cs. map_of (clientsByRoom s) jid = Some cs \<longrightarrow>
         cs \<noteq> [] \<and> startsWith jid ''web:'' \<and> distinct (map res cs)) \<and>
      (\<forall>j1 j2 cs1 cs2 c1 c2.
         map_of (clientsByRoom s) j1 = Some cs1 \<longrightarrow> map_of (clientsByRoom s) j2 = Some cs2 \<longrightarrow>
         c1 \<in> set cs1 \<longrightarrow> c2 \<in> set cs2 \<longrightarrow> res c1 = res c2 \<longrightarrow> j1 = j2))"

subsection \<open>Identifiers in normal form\<close>

definition slug_char :: "char \<Rightarrow> bool" where
  "slug_char c = (is_lower_alnum c \<or> c = CHR ''-'')"

fun no_double_dash :: "string \<Rightarrow> bool" where
  "no_double_dash (a # b # s) = (\<not> (a = CHR ''-'' \<and> b = CHR ''-'') \<and> no_double_dash (b # s))"
| "no_double_dash _ = True"

definition slug_nf :: "string \<Rightarrow> bool" where
  "slug_nf s = (list_all slug_char s \<and> no_double_dash s \<and>
      (s \<noteq> [] \<longrightarrow> hd s \<noteq> CHR ''-'' \<and> last s \<noteq> CHR ''-''))"

subsection \<open>Requests that pass the guards of a handler\<close>

text \<open>
  The text of a send request that gets past the size guard, \<open>JSON.parse\<close>, the
  destructuring and the check \<open>!text || typeof text !== 'string'\<close>; \<open>None\<close> for a
  request answered with 413 or 400.
\<close>

definition send_text :: "env \<Rightarrow> string list \<Rightarrow> string option" where
  "send_text e chunks =
     (case read_body 100000 [] chunks of
        None \<Rightarrow> None
      | Some body \<Rightarrow>
          (case JSON_parse e body of
             None \<Rightarrow> None
           | Some JNull \<Rightarrow> None
           | Some parsed \<Rightarrow>
               let text = get_prop parsed ''text'' in
               if \<not> truthy text \<or> \<not> typeof_string text then None else Some (string_of text)))"

text \<open>The same for the name of a create-room request.\<close>

definition create_name :: "env \<Rightarrow> string list \<Rightarrow> string option" where
  "create_name e chunks =
     (case read_body 10000 [] chunks of
        None \<Rightarrow> None
      | Some body \<Rightarrow>
          (case JSON_parse e body of
             None \<Rightarrow> None
           | Some JNull \<Rightarrow> None
           | Some parsed \<Rightarrow>
               let name = get_prop parsed ''name'' in
               if \<not> truthy name \<or> \<not> typeof_string name then None else Some (string_of name)))"


text \<open>The values of the properties of a JSON object.\<close>

fun property_values :: "json \<Rightarrow> json list" where
  "property_values (JObj kvs) = map snd kvs"
| "property_values _ = []"

subsection \<open>A concrete deployment\<close>

text \<open>
  An environment to run the handlers in: the registry holds the rooms \<open>web:default\<close>
  and \<open>web:work\<close>, \<open>JSON.parse\<close> is given on four request bodies, and every stream
  write fails.
\<close>

definition demo_group :: "string \<Rightarrow> string \<Rightarrow> RegisteredGroup" where
  "demo_group name slug =
     \<lparr>group_name = name, folder = ''web-'' @ slug, trigger = ''@Andy'',
      added_at = ''2024-01-01T00:00:00.000Z'', requiresTrigger = False\<rparr>"

definition body_hello :: string where
  "body_hello = ''{\"text\":\" hello \"}''"

definition body_blank :: string where
  "body_blank = ''{\"text\":\"   \"}''"

definition body_empty :: string where
  "body_empty = ''{}''"

definition body_work :: string where
  "body_work = ''{\"name\":\"Work\"}''"

definition demo_parse :: "string \<Rightarrow> json option" where
  "demo_parse body =
     (if body = body_hello then Some (JObj [(''text'', JStr '' hello '')])
      else if body = body_blank then Some (JObj [(''text'', JStr ''   '')])
      else if body = body_empty then Some (JObj [])
      else if body = body_work then Some (JObj [(''name'', JStr ''Work'')])
      else None)"

definition demo_env :: env where
  "demo_env =
     \<lparr>ASSISTANT_NAME = ''Andy'',
      registeredGroups =
        [''web:default'' \<mapsto> demo_group ''Web Chat'' ''default'',
         ''web:work'' \<mapsto> demo_group ''Work'' ''work''],
      has_onRegisterGroup = True,
      getRecentMessages = (\<lambda>jid n. JArr []),
      JSON_parse = demo_parse,
      Date_now = ''1704067200000'',
      randomBytes_hex = ''ab12cd34'',
      toISOString = ''2024-01-01T00:00:00.000Z'',
      write_accepted = (\<lambda>rs. False)\<rparr>"

text \<open>Two subscribers in \<open>web:default\<close> and one in \<open>web:work\<close>.\<close>

definition demo_events :: "event list" where
  "demo_events =
     [Connect True, Subscribe demo_env 1 ''default'', Subscribe demo_env 2 ''work'',
      Subscribe demo_env 3 ''default'']"

definition demo_hub :: hub where
  "demo_hub =
     \<lparr>clientsByRoom =
        [(''web:default'', [\<lparr>res = 1, keepAliveTimer = 0\<rparr>, \<lparr>res = 3, keepAliveTimer = 2\<rparr>]),
         (''web:work'', [\<lparr>res = 2, keepAliveTimer = 1\<rparr>])],
      connected = True, server = True, nextTimer = 3\<rparr>"

subsection \<open>The store and the orchestrator\<close>

text \<open>
  Modelled from the spec: the persistent store (\<open>db.js\<close>, not among the sources). Its
  interface is "append message" and "fetch last N messages for room in chronological
  order"; the store is the list of the messages appended, oldest first.
\<close>

type_synonym store = "NewMessage list"

text \<open>Modelled from the spec: "append message" of the store (\<open>db.js\<close> is missing).\<close>

definition store_append :: "NewMessage \<Rightarrow> store \<Rightarrow> store" where
  "store_append m st = st @ [m]"

text \<open>
  Modelled from the spec: "fetch last N messages for room in chronological order", the
  \<open>getRecentMessages\<close> of the missing \<open>db.js\<close>.
\<close>

definition store_recent :: "string \<Rightarrow> nat \<Rightarrow> store \<Rightarrow> NewMessage list" where
  "store_recent jid n st =
     (let ms = filter (\<lambda>m. chat_jid m = jid) st in drop (length ms - n) ms)"

text \<open>
  Modelled from the spec: which effects of a trace reach the store. \<open>storeMessageDirect\<close>
  (of the missing \<open>db.js\<close>) appends its message, and the orchestrator's inbound-message
  callback (set up in \<open>index.ts\<close>, not among the sources) persists the message it is
  handed: ingestion "persists it ... hands it to the orchestrator callback".
\<close>

fun persist :: "effect list \<Rightarrow> store \<Rightarrow> store" where
  "persist [] st = st"
| "persist (StoreMessageDirect m # effs) st = persist effs (store_append m st)"
| "persist (OnMessage jid m # effs) st = persist effs (store_append m st)"
| "persist (eff # effs) st = persist effs st"

text \<open>
  Modelled from the spec: the environment in which \<open>getRecentMessages\<close> reads the store
  \<open>st\<close> (the missing \<open>db.js\<close>) and returns the rows as JSON.
\<close>

definition with_store :: "env \<Rightarrow> store \<Rightarrow> env" where
  "with_store e st =
     e\<lparr>getRecentMessages := (\<lambda>jid n. JArr (map message_json (store_recent jid n st)))\<rparr>"

section \<open>Lemmas\<close>

subsection \<open>The derivation yields a normal form and fixes normal forms\<close>

lemma dash_not_alnum: "\<not> is_lower_alnum CHR ''-''"
  by (simp add: is_lower_alnum_def)

lemma replace_runs_chars: "list_all slug_char (replace_runs s)"
  by (induction s rule: replace_runs.induct) (auto simp: slug_char_def)

lemma replace_runs_hd:
  "s \<noteq> [] \<Longrightarrow> is_lower_alnum (hd s) \<Longrightarrow> replace_runs s \<noteq> [] \<and> hd (replace_runs s) = hd s"
  by (cases s) auto

lemma dropWhile_hd_alnum:
  "dropWhile (\<lambda>d. \<not> is_lower_alnum d) cs \<noteq> [] \<Longrightarrow>
     is_lower_alnum (hd (dropWhile (\<lambda>d. \<not> is_lower_alnum d) cs))"
  using hd_dropWhile [of "\<lambda>d. \<not> is_lower_alnum d" cs] by simp

lemma no_double_dash_Cons:
  "no_double_dash (a # s) = ((s \<noteq> [] \<longrightarrow> \<not> (a = CHR ''-'' \<and> hd s = CHR ''-'')) \<and> no_double_dash s)"
  by (cases s) auto

lemma replace_runs_no_double: "no_double_dash (replace_runs s)"
proof (induction s rule: replace_runs.induct)
  case 1
  show ?case by simp
next
  case (2 c cs)
  show ?case
  proof (cases "is_lower_alnum c")
    case True
    with 2 show ?thesis
      by (auto simp: no_double_dash_Cons dash_not_alnum)
  next
    case False
    let ?r = "dropWhile (\<lambda>d. \<not> is_lower_alnum d) cs"
    have "replace_runs ?r \<noteq> [] \<Longrightarrow> hd (replace_runs ?r) \<noteq> CHR ''-''"
    proof -
      assume "replace_runs ?r \<noteq> []"
      then have ne: "?r \<noteq> []" by (metis replace_runs.simps(1))
      then have "is_lower_alnum (hd ?r)" by (rule dropWhile_hd_alnum)
      with ne replace_runs_hd [of ?r] show ?thesis
        using dash_not_alnum by metis
    qed
    with False 2 show ?thesis
      by (simp add: no_double_dash_Cons)
  qed
qed

lemma no_double_dash_tl: "no_double_dash s \<Longrightarrow> no_double_dash (tl s)"
  by (cases s) (auto simp: no_double_dash_Cons)

lemma no_double_dash_butlast: "no_double_dash s \<Longrightarrow> no_double_dash (butlast s)"
  by (induction s rule: no_double_dash.induct) (auto simp: no_double_dash_Cons)

lemma no_double_dash_last:
  "no_double_dash s \<Longrightarrow> s \<noteq> [] \<Longrightarrow> last s = CHR ''-'' \<Longrightarrow> butlast s \<noteq> [] \<Longrightarrow>
     last (butlast s) \<noteq> CHR ''-''"
  by (induction s rule: no_double_dash.induct) (auto split: if_splits)


lemma strip_edge_dashes_nf:
  assumes chars: "list_all slug_char s" and ndd: "no_double_dash s"
  shows "slug_nf (strip_edge_dashes s)"
proof -
  define s1 where "s1 = (case s of [] \<Rightarrow> [] | c # cs \<Rightarrow> if c = CHR ''-'' then cs else s)"
  have s1_chars: "list_all slug_char s1"
    using chars by (auto simp: s1_def split: list.splits)
  have s1_ndd: "no_double_dash s1"
    using ndd by (auto simp: s1_def no_double_dash_Cons split: list.splits)
  have s1_hd: "s1 \<noteq> [] \<Longrightarrow> hd s1 \<noteq> CHR ''-''"
    using ndd by (auto simp: s1_def no_double_dash_Cons split: list.splits if_splits)
  have res: "strip_edge_dashes s = (if s1 \<noteq> [] \<and> last s1 = CHR ''-'' then butlast s1 else s1)"
    by (simp add: strip_edge_dashes_def s1_def)
  show ?thesis
  proof (cases "s1 \<noteq> [] \<and> last s1 = CHR ''-''")
    case True
    have "list_all slug_char (butlast s1)"
      using s1_chars by (auto simp: list_all_iff dest: in_set_butlastD)
    moreover have "no_double_dash (butlast s1)"
      using s1_ndd by (rule no_double_dash_butlast)
    moreover have "butlast s1 \<noteq> [] \<Longrightarrow> hd (butlast s1) \<noteq> CHR ''-''"
      using s1_hd True by (cases s1) (auto split: if_splits)
    moreover have "butlast s1 \<noteq> [] \<Longrightarrow> last (butlast s1) \<noteq> CHR ''-''"
      using no_double_dash_last [OF s1_ndd] True by blast
    ultimately show ?thesis
      using True by (simp add: res slug_nf_def)
  next
    case False
    then show ?thesis
      using s1_chars s1_ndd s1_hd by (auto simp: res slug_nf_def)
  qed
qed

lemma slugify_nf: "slug_nf (slugify name)"
  unfolding slugify_def
  by (rule strip_edge_dashes_nf [OF replace_runs_chars replace_runs_no_double])

lemma lower_char_slug: "slug_char c \<Longrightarrow> lower_char c = c"
  by (auto simp: slug_char_def is_lower_alnum_def lower_char_def Let_def)

lemma toLowerCase_nf: "list_all slug_char s \<Longrightarrow> toLowerCase s = s"
  by (induction s) (auto simp: toLowerCase_def lower_char_slug)

lemma slug_char_not_ws: "slug_char c \<Longrightarrow> c \<noteq> CHR ''-'' \<Longrightarrow> \<not> is_whitespace c"
  by (auto simp: slug_char_def is_lower_alnum_def is_whitespace_def Let_def)

lemma trim_nf: "slug_nf s \<Longrightarrow> trim s = s"
proof (cases s)
  case Nil
  then show ?thesis by (simp add: trim_def)
next
  case (Cons c cs)
  assume nf: "slug_nf s"
  have "\<not> is_whitespace (hd s)"
    using nf Cons by (auto simp: slug_nf_def dest: slug_char_not_ws)
  then have a: "dropWhile is_whitespace s = s"
    using Cons by simp
  have "last s \<in> set s" using Cons by simp
  then have "slug_char (last s)" using nf by (auto simp: slug_nf_def list_all_iff)
  then have "\<not> is_whitespace (last s)"
    using nf Cons by (auto simp: slug_nf_def dest: slug_char_not_ws)
  moreover have "s \<noteq> []" using Cons by simp
  ultimately have "\<not> is_whitespace (hd (rev s))"
    by (simp add: hd_rev)
  then have b: "dropWhile is_whitespace (rev s) = rev s"
    using Cons by (cases "rev s") auto
  show ?thesis by (simp add: trim_def a b)
qed

lemma replace_runs_nf:
  "list_all slug_char s \<Longrightarrow> no_double_dash s \<Longrightarrow> replace_runs s = s"
proof (induction s rule: replace_runs.induct)
  case 1
  show ?case by simp
next
  case (2 c cs)
  show ?case
  proof (cases "is_lower_alnum c")
    case True
    with 2 show ?thesis by (simp add: no_double_dash_Cons)
  next
    case False
    with 2(3) have c: "c = CHR ''-''" by (simp add: slug_char_def)
    have "dropWhile (\<lambda>d. \<not> is_lower_alnum d) cs = cs"
    proof (cases cs)
      case Nil
      then show ?thesis by simp
    next
      case (Cons d ds)
      with 2(3,4) c have "is_lower_alnum d" by (auto simp: slug_char_def)
      with Cons show ?thesis by simp
    qed
    with False 2 c show ?thesis by (simp add: no_double_dash_Cons)
  qed
qed

lemma strip_edge_dashes_id: "slug_nf s \<Longrightarrow> strip_edge_dashes s = s"
  by (cases s) (auto simp: slug_nf_def strip_edge_dashes_def)

lemma slugify_fixed: "slug_nf s \<Longrightarrow> slugify s = s"
  by (simp add: slugify_def toLowerCase_nf trim_nf replace_runs_nf strip_edge_dashes_id slug_nf_def)

subsection \<open>The subscriber table stays well formed\<close>

lemma handleSse_table:
  "map_of (clientsByRoom (fst (handleSse e s rs room))) =
     (map_of (clientsByRoom s))
       (''web:'' @ room \<mapsto> roomClients s (''web:'' @ room) @ [\<lparr>res = rs, keepAliveTimer = nextTimer s\<rparr>])"
  by (auto simp: handleSse_def Let_def Map_has_def Map_get_def Map_set_def roomClients_def
        update_conv' split: option.splits)

lemma handleSse_keys:
  "distinct (map fst (clientsByRoom s)) \<Longrightarrow>
     distinct (map fst (clientsByRoom (fst (handleSse e s rs room))))"
  by (auto simp: handleSse_def Let_def Map_has_def Map_get_def Map_set_def distinct_update
        split: option.splits)

lemma on_close_table:
  "map_of (clientsByRoom (fst (on_close client jid s))) =
     (case map_of (clientsByRoom s) jid of
        None \<Rightarrow> map_of (clientsByRoom s)
      | Some clients \<Rightarrow>
          (map_of (clientsByRoom s))
            (jid := (if filter (\<lambda>c. c \<noteq> client) clients = [] then None
                     else Some (filter (\<lambda>c. c \<noteq> client) clients))))"
  by (auto simp: on_close_def Let_def Map_get_def Map_set_def Map_delete_def
        update_conv' delete_conv' split: option.splits)

lemma on_close_keys:
  "distinct (map fst (clientsByRoom s)) \<Longrightarrow>
     distinct (map fst (clientsByRoom (fst (on_close client jid s))))"
  by (auto simp: on_close_def Let_def Map_get_def Map_set_def Map_delete_def
        distinct_update distinct_delete split: option.splits)

lemma allClients_iff:
  "distinct (map fst (clientsByRoom s)) \<Longrightarrow>
     c \<in> set (allClients s) \<longleftrightarrow> (\<exists>jid cs. map_of (clientsByRoom s) jid = Some cs \<and> c \<in> set cs)"
  by (auto simp: allClients_def) (blast, force)

lemma wf_initial: "wf_hub initial_hub"
  by (simp add: wf_hub_def initial_hub_def)

lemma sendMessage_state: "fst (sendMessage e s jid text sn) = s"
  by (simp add: sendMessage_def Let_def)

lemma handleSend_state: "fst (handleSend e s rs room chunks) = s"
  by (auto simp: handleSend_def handleSend_end_def Let_def split: option.splits json.splits)

lemma handleHistory_state: "fst (handleHistory e s rs room) = s"
  by (simp add: handleHistory_def Let_def)

lemma handleCreateRoom_state: "fst (handleCreateRoom e s rs chunks) = s"
  by (auto simp: handleCreateRoom_def handleCreateRoom_end_def Let_def split: option.splits json.splits)

lemma wf_connect: "wf_hub s \<Longrightarrow> wf_hub (connect l s)"
  by (simp add: wf_hub_def connect_def)

lemma wf_disconnect: "wf_hub (fst (disconnect s))"
  by (simp add: wf_hub_def disconnect_def)


lemma wf_on_close:
  assumes wf: "wf_hub s"
  shows "wf_hub (fst (on_close client jid s))"
proof -
  let ?m = "clientsByRoom s"
  let ?m' = "clientsByRoom (fst (on_close client jid s))"
  have sub: "\<exists>cs. map_of ?m j = Some cs \<and> set cs' \<subseteq> set cs \<and> (distinct (map res cs) \<longrightarrow> distinct (map res cs'))"
    if "map_of ?m' j = Some cs'" for j cs'
    using that unfolding on_close_table
    by (auto split: option.splits if_splits simp: distinct_map_filter)
  have keys: "distinct (map fst ?m')"
    using wf by (simp add: wf_hub_def on_close_keys)
  have ne: "cs' \<noteq> []" if "map_of ?m' j = Some cs'" for j cs'
    using that wf unfolding on_close_table wf_hub_def
    by (auto split: option.splits if_splits)
  show ?thesis
    unfolding wf_hub_def
  proof (intro conjI allI impI)
    show "distinct (map fst ?m')" by (rule keys)
  next
    fix j cs assume "map_of ?m' j = Some cs"
    then show "cs \<noteq> []" by (rule ne)
  next
    fix j cs assume a: "map_of ?m' j = Some cs"
    from sub [OF a] wf show "startsWith j ''web:''" by (auto simp: wf_hub_def)
  next
    fix j cs assume a: "map_of ?m' j = Some cs"
    from sub [OF a] wf show "distinct (map res cs)" by (auto simp: wf_hub_def)
  next
    fix j1 j2 cs1 cs2 c1 c2
    assume a1: "map_of ?m' j1 = Some cs1" and a2: "map_of ?m' j2 = Some cs2"
      and c1: "c1 \<in> set cs1" and c2: "c2 \<in> set cs2" and r: "res c1 = res c2"
    from sub [OF a1] obtain d1 where d1: "map_of ?m j1 = Some d1" "set cs1 \<subseteq> set d1" by blast
    from sub [OF a2] obtain d2 where d2: "map_of ?m j2 = Some d2" "set cs2 \<subseteq> set d2" by blast
    from wf d1 d2 c1 c2 r show "j1 = j2"
      unfolding wf_hub_def by blast
  qed
qed

lemma wf_handleSse:
  assumes wf: "wf_hub s" and fresh: "rs \<notin> set (map res (allClients s))"
  shows "wf_hub (fst (handleSse e s rs room))"
proof -
  let ?m = "clientsByRoom s"
  let ?jid = "''web:'' @ room"
  let ?client = "\<lparr>res = rs, keepAliveTimer = nextTimer s\<rparr>"
  let ?m' = "clientsByRoom (fst (handleSse e s rs room))"
  have keys0: "distinct (map fst ?m)" using wf by (simp add: wf_hub_def)
  have fresh': "rs \<noteq> res c" if "map_of ?m j = Some cs" "c \<in> set cs" for j cs c
    using fresh that allClients_iff [OF keys0] by auto
  have old: "set (roomClients s ?jid) \<subseteq> set (allClients s) \<and> distinct (map res (roomClients s ?jid))"
    using wf allClients_iff [OF keys0]
    by (auto simp: roomClients_def Map_get_def wf_hub_def split: option.splits)
  have tab: "map_of ?m' = (map_of ?m)(?jid \<mapsto> roomClients s ?jid @ [?client])"
    by (rule handleSse_table)
  show ?thesis
    unfolding wf_hub_def
  proof (intro conjI allI impI)
    show "distinct (map fst ?m')" using keys0 by (rule handleSse_keys)
  next
    fix j cs assume "map_of ?m' j = Some cs"
    then show "cs \<noteq> []" using wf unfolding tab wf_hub_def by (auto split: if_splits)
  next
    fix j cs assume "map_of ?m' j = Some cs"
    then show "startsWith j ''web:''" using wf unfolding tab wf_hub_def
      by (auto split: if_splits simp: startsWith_def)
  next
    fix j cs assume "map_of ?m' j = Some cs"
    moreover have "rs \<notin> res ` set (roomClients s ?jid)"
      using old fresh by auto
    ultimately show "distinct (map res cs)" using wf old unfolding tab wf_hub_def
      by (auto split: if_splits)
  next
    fix j1 j2 cs1 cs2 c1 c2
    assume a1: "map_of ?m' j1 = Some cs1" and a2: "map_of ?m' j2 = Some cs2"
      and c1: "c1 \<in> set cs1" and c2: "c2 \<in> set cs2" and r: "res c1 = res c2"
    have in_old: "j = ?jid \<or> (\<exists>d. map_of ?m j = Some d \<and> c \<in> set d)"
      if "map_of ?m' j = Some cs" "c \<in> set cs" for j cs c
      using that unfolding tab by (auto split: if_splits)
    have at_jid: "c = ?client \<or> (\<exists>d. map_of ?m ?jid = Some d \<and> c \<in> set d)"
      if "map_of ?m' ?jid = Some cs" "c \<in> set cs" for cs c
      using that unfolding tab by (auto simp: roomClients_def Map_get_def split: option.splits)
    show "j1 = j2"
    proof (rule ccontr)
      assume ne: "j1 \<noteq> j2"
      consider (a) "j1 = ?jid" "j2 \<noteq> ?jid" | (b) "j1 \<noteq> ?jid" "j2 = ?jid" | (c) "j1 \<noteq> ?jid" "j2 \<noteq> ?jid"
        using ne by blast
      then show False
      proof cases
        case a
        from in_old [OF a2 c2] a obtain d2 where d2: "map_of ?m j2 = Some d2" "c2 \<in> set d2" by blast
        from at_jid a1 c1 a have "c1 = ?client \<or> (\<exists>d. map_of ?m ?jid = Some d \<and> c1 \<in> set d)" by blast
        then show False
        proof
          assume "c1 = ?client"
          with r fresh' [OF d2] show False by simp
        next
          assume "\<exists>d. map_of ?m ?jid = Some d \<and> c1 \<in> set d"
          then obtain d where "map_of ?m ?jid = Some d" "c1 \<in> set d" by blast
          with d2 r wf a show False unfolding wf_hub_def by blast
        qed
      next
        case b
        from in_old [OF a1 c1] b obtain d1 where d1: "map_of ?m j1 = Some d1" "c1 \<in> set d1" by blast
        from at_jid a2 c2 b have "c2 = ?client \<or> (\<exists>d. map_of ?m ?jid = Some d \<and> c2 \<in> set d)" by blast
        then show False
        proof
          assume "c2 = ?client"
          with r fresh' [OF d1] show False by simp
        next
          assume "\<exists>d. map_of ?m ?jid = Some d \<and> c2 \<in> set d"
          then obtain d where "map_of ?m ?jid = Some d" "c2 \<in> set d" by blast
          with d1 r wf b show False unfolding wf_hub_def by blast
        qed
      next
        case c
        from in_old [OF a1 c1] c obtain d1 where d1: "map_of ?m j1 = Some d1" "c1 \<in> set d1" by blast
        from in_old [OF a2 c2] c obtain d2 where d2: "map_of ?m j2 = Some d2" "c2 \<in> set d2" by blast
        from d1 d2 r wf ne show False unfolding wf_hub_def by blast
      qed
    qed
  qed
qed

lemma wf_step: "wf_hub s \<Longrightarrow> admissible s ev \<Longrightarrow> wf_hub (step s ev)"
  by (cases ev)
     (simp_all add: wf_connect wf_handleSse wf_on_close wf_disconnect sendMessage_state
        handleSend_state handleHistory_state handleCreateRoom_state)

lemma wf_run: "wf_hub s \<Longrightarrow> run s evs = Some s' \<Longrightarrow> wf_hub s'"
proof (induction evs arbitrary: s)
  case Nil
  then show ?case by simp
next
  case (Cons ev evs)
  from Cons.prems(2) have adm: "admissible s ev" and rest: "run (step s ev) evs = Some s'"
    by (auto split: if_splits)
  from Cons.prems(1) adm have "wf_hub (step s ev)" by (rule wf_step)
  then show ?case using rest by (rule Cons.IH)
qed

lemma run_initial_wf: "run initial_hub evs = Some s \<Longrightarrow> wf_hub s"
  using wf_initial by (rule wf_run)

subsection \<open>The traces of the handlers\<close>

lemma sse_writes_append: "sse_writes (xs @ ys) = sse_writes xs @ sse_writes ys"
  by (induction xs rule: sse_writes.induct) simp_all


lemma sse_writes_broadcast: "sse_writes (broadcast w clients d) = map (\<lambda>c. (res c, d)) clients"
  by (induction clients) simp_all


lemma send_text_cases:
  assumes "send_text e chunks = Some t"
  obtains body parsed where "read_body 100000 [] chunks = Some body"
    and "JSON_parse e body = Some parsed" and "parsed \<noteq> JNull"
    and "truthy (get_prop parsed ''text'')" and "typeof_string (get_prop parsed ''text'')"
    and "string_of (get_prop parsed ''text'') = t"
  using assms unfolding send_text_def
  by (auto simp: Let_def split: option.splits json.splits if_splits)

lemma handleSend_accepted:
  assumes "send_text e chunks = Some t"
    and "registeredGroups e (''web:'' @ room) = Some g"
  shows "handleSend e s rs room chunks =
     (s, [OnChatMetadata (''web:'' @ room) (toISOString e) (group_name g) ''web'' False,
          OnMessage (''web:'' @ room) (user_message e (''web:'' @ room) t)]
         @ broadcast (write_accepted e) (roomClients s (''web:'' @ room))
             (SseEvent ''message'' (message_json (user_message e (''web:'' @ room) t)))
         @ [WriteHead rs 200,
            EndJson rs (JObj [(''ok'', JBool True),
                              (''message'', message_json (user_message e (''web:'' @ room) t))])])"
proof -
  from assms(1) obtain body parsed where b: "read_body 100000 [] chunks = Some body"
    and p: "JSON_parse e body = Some parsed" "parsed \<noteq> JNull"
    and t: "truthy (get_prop parsed ''text'')" "typeof_string (get_prop parsed ''text'')"
      "string_of (get_prop parsed ''text'') = t"
    by (rule send_text_cases)
  show ?thesis
    using b p t assms(2)
    by (cases parsed) (simp_all add: handleSend_def handleSend_end_def Let_def user_message_def)
qed

lemma handleSend_unknown_room:
  assumes "send_text e chunks = Some t"
    and "registeredGroups e (''web:'' @ room) = None"
  shows "handleSend e s rs room chunks = (s, json_error rs 404 ''Room not found'')"
proof -
  from assms(1) obtain body parsed where b: "read_body 100000 [] chunks = Some body"
    and p: "JSON_parse e body = Some parsed" "parsed \<noteq> JNull"
    and t: "truthy (get_prop parsed ''text'')" "typeof_string (get_prop parsed ''text'')"
    by (rule send_text_cases)
  show ?thesis
    using b p t assms(2)
    by (cases parsed) (simp_all add: handleSend_def handleSend_end_def Let_def)
qed

lemma handleSend_rejected:
  assumes "send_text e chunks = None"
  shows "handleSend e s rs room chunks = (s, payload_too_large rs) \<or>
         handleSend e s rs room chunks = (s, json_error rs 400 ''Invalid JSON'') \<or>
         handleSend e s rs room chunks = (s, json_error rs 400 ''Missing \"text\" field'')"
  using assms unfolding send_text_def handleSend_def handleSend_end_def
  by (auto simp: Let_def split: option.splits json.splits if_splits)

lemma handleSend_writes_in_room:
  "map fst (sse_writes (snd (handleSend e s rs room chunks))) = [] \<or>
   map fst (sse_writes (snd (handleSend e s rs room chunks))) = map res (roomClients s (''web:'' @ room))"
proof (cases "send_text e chunks")
  case None
  from handleSend_rejected [OF None, of s rs room] show ?thesis
    by (auto simp: payload_too_large_def json_error_def)
next
  case (Some t)
  show ?thesis
  proof (cases "registeredGroups e (''web:'' @ room)")
    case None
    with Some show ?thesis
      by (simp add: handleSend_unknown_room json_error_def)
  next
    case (Some g)
    with \<open>send_text e chunks = Some t\<close> show ?thesis
      by (simp add: handleSend_accepted sse_writes_append sse_writes_broadcast comp_def)
  qed
qed

lemma handleSend_write_targets:
  "fst ` set (sse_writes (snd (handleSend e s rs room chunks))) \<subseteq>
     res ` set (roomClients s (''web:'' @ room))"
proof -
  let ?ws = "sse_writes (snd (handleSend e s rs room chunks))"
  from handleSend_writes_in_room [of e s rs room chunks]
  have "set (map fst ?ws) \<subseteq> set (map res (roomClients s (''web:'' @ room)))"
  proof
    assume "map fst ?ws = []"
    then show ?thesis by (simp only: list.set empty_subsetI)
  next
    assume "map fst ?ws = map res (roomClients s (''web:'' @ room))"
    then show ?thesis by (simp only: subset_refl)
  qed
  then show ?thesis by (simp only: set_map)
qed

lemma sendMessage_writes:
  "sse_writes (snd (sendMessage e s jid text sn)) =
     (if startsWith jid ''web:''
      then map (\<lambda>c. (res c, SseEvent ''message'' (message_json (bot_message e jid text sn))))
             (roomClients s jid)
      else [])"
  by (simp add: sendMessage_def Let_def sse_writes_broadcast)

lemma roomClients_outside_address_space:
  "wf_hub s \<Longrightarrow> \<not> startsWith jid ''web:'' \<Longrightarrow> roomClients s jid = []"
  by (auto simp: wf_hub_def roomClients_def Map_get_def split: option.splits)

lemma roomClients_entry:
  "c \<in> set (roomClients s jid) \<Longrightarrow> \<exists>cs. map_of (clientsByRoom s) jid = Some cs \<and> c \<in> set cs"
  by (cases "map_of (clientsByRoom s) jid") (auto simp: roomClients_def Map_get_def)

lemma roomClients_disjoint:
  assumes "wf_hub s" and "j1 \<noteq> j2" and "c1 \<in> set (roomClients s j1)" and "c2 \<in> set (roomClients s j2)"
  shows "res c1 \<noteq> res c2"
proof -
  from roomClients_entry [OF assms(3)]
  obtain cs1 where 1: "map_of (clientsByRoom s) j1 = Some cs1" "c1 \<in> set cs1" by blast
  from roomClients_entry [OF assms(4)]
  obtain cs2 where 2: "map_of (clientsByRoom s) j2 = Some cs2" "c2 \<in> set cs2" by blast
  from assms(1,2) 1 2 show ?thesis
    unfolding wf_hub_def by blast
qed

lemma roomClients_handleSse:
  "roomClients (fst (handleSse e s rs room)) (''web:'' @ room) =
     roomClients s (''web:'' @ room) @ [\<lparr>res = rs, keepAliveTimer = nextTimer s\<rparr>]"
  using handleSse_table [of e s rs room]
  by (simp add: roomClients_def Map_get_def)

lemma roomClients_on_close:
  "roomClients (fst (on_close client jid s)) jid = filter (\<lambda>c. c \<noteq> client) (roomClients s jid)"
  using on_close_table [of client jid s]
  by (auto simp: roomClients_def Map_get_def split: option.splits)

lemma Map_has_on_close:
  "Map_has (clientsByRoom (fst (on_close client jid s))) jid \<longleftrightarrow>
     filter (\<lambda>c. c \<noteq> client) (roomClients s jid) \<noteq> []"
  using on_close_table [of client jid s]
  by (auto simp: roomClients_def Map_get_def Map_has_def split: option.splits)

lemma wf_no_empty_room: "wf_hub s \<Longrightarrow> no_empty_room (clientsByRoom s)"
  by (auto simp: wf_hub_def no_empty_room_def list_all_iff) blast

lemma end_clients_effects:
  "c \<in> set clients \<Longrightarrow>
     ClearInterval (keepAliveTimer c) \<in> set (end_clients clients) \<and> End (res c) \<in> set (end_clients clients)"
  by (induction clients) auto

lemma end_rooms_effects:
  "(jid, clients) \<in> set rooms \<Longrightarrow> c \<in> set clients \<Longrightarrow>
     ClearInterval (keepAliveTimer c) \<in> set (end_rooms rooms) \<and> End (res c) \<in> set (end_rooms rooms)"
  by (induction rooms) (auto simp: end_clients_effects)

lemma demo_run: "run initial_hub demo_events = Some demo_hub"
  by (simp add: demo_events_def demo_hub_def initial_hub_def connect_def handleSse_def Let_def
      allClients_def Map_has_def Map_get_def Map_set_def demo_env_def)

lemma demo_send_text:
  "send_text demo_env [body_hello] = Some '' hello ''"
  "send_text demo_env [body_blank] = Some ''   ''"
  "send_text demo_env [body_empty] = None"
  by (simp_all add: send_text_def demo_env_def demo_parse_def body_hello_def body_blank_def
      body_empty_def Let_def)

lemma demo_registry:
  "registeredGroups demo_env ''web:default'' = Some (demo_group ''Web Chat'' ''default'')"
  "registeredGroups demo_env ''web:work'' = Some (demo_group ''Work'' ''work'')"
  "registeredGroups demo_env ''web:nowhere'' = None"
  by (simp_all add: demo_env_def)

lemma demo_rooms:
  "roomClients demo_hub ''web:default'' = [\<lparr>res = 1, keepAliveTimer = 0\<rparr>, \<lparr>res = 3, keepAliveTimer = 2\<rparr>]"
  "roomClients demo_hub ''web:work'' = [\<lparr>res = 2, keepAliveTimer = 1\<rparr>]"
  "roomClients demo_hub ''web:nowhere'' = []"
  by (simp_all add: demo_hub_def roomClients_def Map_get_def)






lemma create_name_cases:
  assumes "create_name e chunks = Some name"
  obtains body parsed where "read_body 10000 [] chunks = Some body"
    and "JSON_parse e body = Some parsed" and "parsed \<noteq> JNull"
    and "truthy (get_prop parsed ''name'')" and "typeof_string (get_prop parsed ''name'')"
    and "string_of (get_prop parsed ''name'') = name"
  using assms unfolding create_name_def
  by (auto simp: Let_def split: option.splits json.splits if_splits)

lemma handleCreateRoom_conflict:
  assumes "has_onRegisterGroup e"
    and "create_name e chunks = Some name"
    and "slugify name \<noteq> []"
    and "registeredGroups e (''web:'' @ slugify name) = Some g"
  shows "handleCreateRoom e s rs chunks =
     (s, [WriteHead rs 409,
          EndJson rs (JObj [(''error'', JStr ''Room already exists''),
                            (''slug'', JStr (slugify name))])])"
proof -
  from assms(2) obtain body parsed where b: "read_body 10000 [] chunks = Some body"
    and p: "JSON_parse e body = Some parsed" "parsed \<noteq> JNull"
    and t: "truthy (get_prop parsed ''name'')" "typeof_string (get_prop parsed ''name'')"
      "string_of (get_prop parsed ''name'') = name"
    by (rule create_name_cases)
  show ?thesis
    using b p t assms(1,3,4)
    by (cases parsed) (simp_all add: handleCreateRoom_def handleCreateRoom_end_def Let_def)
qed

lemma demo_create_name: "create_name demo_env [body_work] = Some ''Work''"
  by (simp add: create_name_def demo_env_def demo_parse_def body_hello_def body_blank_def
      body_empty_def body_work_def Let_def)

lemma slugify_Work: "slugify ''Work'' = ''work''"
  by code_simp

lemma trim_hello: "trim '' hello '' = ''hello''"
  by code_simp

lemma trim_blank: "trim ''   '' = []"
  by code_simp

lemma demo_registry_at:
  "registeredGroups demo_env (''web:'' @ ''default'') = Some (demo_group ''Web Chat'' ''default'')"
  "registeredGroups demo_env (''web:'' @ ''nowhere'') = None"
  by (simp_all add: demo_env_def)

lemma handleSend_without_text:
  assumes "read_body 100000 [] chunks = Some body"
    and "JSON_parse e body = Some parsed"
    and "\<not> truthy (get_prop parsed ''text'') \<or> \<not> typeof_string (get_prop parsed ''text'')"
  shows "\<exists>msg. handleSend e s rs room chunks =
           (s, [WriteHead rs 400, EndJson rs (JObj [(''error'', JStr msg)])])"
  using assms
  by (cases parsed) (auto simp: handleSend_def handleSend_end_def json_error_def Let_def)

subsection \<open>What a send leaves in the store\<close>

lemma persist_append: "persist (xs @ ys) st = persist ys (persist xs st)"
  by (induction xs st rule: persist.induct) simp_all

lemma persist_broadcast: "persist (broadcast w clients d) st = st"
  by (induction clients) simp_all

lemma store_recent_append:
  assumes "chat_jid m = jid" and "0 < n"
  shows "store_recent jid n (st @ [m]) =
           drop (Suc (length (filter (\<lambda>x. chat_jid x = jid) st)) - n)
             (filter (\<lambda>x. chat_jid x = jid) st) @ [m]"
  using assms by (simp add: store_recent_def Let_def)

lemma handleSend_persists:
  assumes "send_text e chunks = Some t"
    and "registeredGroups e (''web:'' @ room) = Some g"
  shows "persist (snd (handleSend e s rs room chunks)) st = st @ [user_message e (''web:'' @ room) t]"
  by (simp add: handleSend_accepted [OF assms] persist_append persist_broadcast store_append_def)

section \<open>Properties of the hub and its handlers\<close>

text \<open>
  C5. Deriving a room identifier is idempotent: applied to its own output it yields that
  output unchanged (and, being a function, it yields the same identifier for the same
  name). \<open>My Project\<close> derives to \<open>my-project\<close> and \<open>Work Stuff!!\<close> to
  \<open>work-stuff\<close>.
\<close>

theorem slugify_idempotent:
  "slugify (slugify name) = slugify name \<and>
   slugify ''My Project'' = ''my-project'' \<and>
   slugify ''Work Stuff!!'' = ''work-stuff''"
proof (intro conjI)
  show "slugify (slugify name) = slugify name"
    by (rule slugify_fixed [OF slugify_nf])
  show "slugify ''My Project'' = ''my-project''"
    by code_simp
  show "slugify ''Work Stuff!!'' = ''work-stuff''"
    by code_simp
qed

text \<open>
  C1. In every state the hub can reach, publishing to a room writes the serialised
  message to exactly the subscribers registered for that room, through \<open>sendMessage\<close>
  and through the broadcast step of an accepted send request alike; no subscriber
  registered for another room is written to; and with no subscriber registered for the
  room nothing is written, the table is unchanged and the call ends normally
  (\<open>sendMessage\<close> has then only stored the message, the send handler answers 200).
\<close>

theorem publish_reaches_exactly_the_room:
  assumes "run initial_hub evs = Some s"
  shows
    "sse_writes (snd (sendMessage e s jid text sn)) =
       map (\<lambda>c. (res c, SseEvent ''message'' (message_json (bot_message e jid text sn))))
         (roomClients s jid)
     \<and> (\<forall>t g. send_text e chunks = Some t \<longrightarrow> registeredGroups e (''web:'' @ room) = Some g \<longrightarrow>
          sse_writes (snd (handleSend e s rs room chunks)) =
            map (\<lambda>c. (res c, SseEvent ''message'' (message_json (user_message e (''web:'' @ room) t))))
              (roomClients s (''web:'' @ room)))
     \<and> (\<forall>other c. other \<noteq> jid \<longrightarrow> c \<in> set (roomClients s other) \<longrightarrow>
          res c \<notin> fst ` set (sse_writes (snd (sendMessage e s jid text sn))))
     \<and> (\<forall>other c. other \<noteq> ''web:'' @ room \<longrightarrow> c \<in> set (roomClients s other) \<longrightarrow>
          res c \<notin> fst ` set (sse_writes (snd (handleSend e s rs room chunks))))
     \<and> (roomClients s jid = [] \<longrightarrow>
          sendMessage e s jid text sn =
            (s, if startsWith jid ''web:'' then [StoreMessageDirect (bot_message e jid text sn)] else []))
     \<and> (\<forall>t g. roomClients s (''web:'' @ room) = [] \<longrightarrow> send_text e chunks = Some t \<longrightarrow>
          registeredGroups e (''web:'' @ room) = Some g \<longrightarrow>
          handleSend e s rs room chunks =
            (s, [OnChatMetadata (''web:'' @ room) (toISOString e) (group_name g) ''web'' False,
                 OnMessage (''web:'' @ room) (user_message e (''web:'' @ room) t),
                 WriteHead rs 200,
                 EndJson rs (JObj [(''ok'', JBool True),
                                   (''message'', message_json (user_message e (''web:'' @ room) t))])]))"
proof -
  have wf: "wf_hub s" using assms by (rule run_initial_wf)
  have a: "sse_writes (snd (sendMessage e s jid text sn)) =
       map (\<lambda>c. (res c, SseEvent ''message'' (message_json (bot_message e jid text sn))))
         (roomClients s jid)"
    using roomClients_outside_address_space [OF wf, of jid]
    by (simp add: sendMessage_writes)
  have b: "sse_writes (snd (handleSend e s rs room chunks)) =
            map (\<lambda>c. (res c, SseEvent ''message'' (message_json (user_message e (''web:'' @ room) t))))
              (roomClients s (''web:'' @ room))"
    if "send_text e chunks = Some t" "registeredGroups e (''web:'' @ room) = Some g" for t g
    using that by (simp add: handleSend_accepted sse_writes_append sse_writes_broadcast)
  have c: "res c \<notin> fst ` set (sse_writes (snd (sendMessage e s jid text sn)))"
    if "other \<noteq> jid" "c \<in> set (roomClients s other)" for other c
  proof
    assume "res c \<in> fst ` set (sse_writes (snd (sendMessage e s jid text sn)))"
    then obtain c' where "c' \<in> set (roomClients s jid)" "res c' = res c"
      unfolding a by auto
    with roomClients_disjoint [OF wf that(1) that(2), of c'] show False by simp
  qed
  have d: "res c \<notin> fst ` set (sse_writes (snd (handleSend e s rs room chunks)))"
    if "other \<noteq> ''web:'' @ room" "c \<in> set (roomClients s other)" for other c
  proof
    assume "res c \<in> fst ` set (sse_writes (snd (handleSend e s rs room chunks)))"
    with handleSend_write_targets [of e s rs room chunks]
    have "res c \<in> res ` set (roomClients s (''web:'' @ room))"
      by blast
    then obtain c' where "c' \<in> set (roomClients s (''web:'' @ room))" "res c' = res c"
      by auto
    with roomClients_disjoint [OF wf that(1) that(2), of c'] show False by simp
  qed
  have e: "sendMessage e s jid text sn =
            (s, if startsWith jid ''web:'' then [StoreMessageDirect (bot_message e jid text sn)] else [])"
    if "roomClients s jid = []"
    using that by (simp add: sendMessage_def Let_def)
  have f: "handleSend e s rs room chunks =
            (s, [OnChatMetadata (''web:'' @ room) (toISOString e) (group_name g) ''web'' False,
                 OnMessage (''web:'' @ room) (user_message e (''web:'' @ room) t),
                 WriteHead rs 200,
                 EndJson rs (JObj [(''ok'', JBool True),
                                   (''message'', message_json (user_message e (''web:'' @ room) t))])])"
    if "roomClients s (''web:'' @ room) = []" "send_text e chunks = Some t"
      "registeredGroups e (''web:'' @ room) = Some g" for t g
    using that by (simp add: handleSend_accepted)
  from a b c d e f show ?thesis by blast
qed

theorem publish_reaches_exactly_the_room_witness:
  "run initial_hub demo_events = Some demo_hub
   \<and> map fst (sse_writes (snd (sendMessage demo_env demo_hub ''web:work'' ''done'' None))) = [2]
   \<and> send_text demo_env [body_hello] = Some '' hello ''
   \<and> map fst (sse_writes (snd (handleSend demo_env demo_hub 9 ''default'' [body_hello]))) = [1, 3]
   \<and> roomClients demo_hub ''web:nowhere'' = []
   \<and> sendMessage demo_env demo_hub ''web:nowhere'' ''done'' None =
       (demo_hub, [StoreMessageDirect (bot_message demo_env ''web:nowhere'' ''done'' None)])"
proof -
  note thm1 = publish_reaches_exactly_the_room [OF demo_run, of demo_env "''web:work''" "''done''" None
      "[body_hello]" "''default''" 9]
  note thm2 = publish_reaches_exactly_the_room [OF demo_run, of demo_env "''web:nowhere''" "''done''" None
      "[body_hello]" "''default''" 9]
  from thm1 have "map fst (sse_writes (snd (sendMessage demo_env demo_hub ''web:work'' ''done'' None))) = [2]"
    by (simp add: demo_rooms comp_def)
  moreover from thm1 demo_send_text(1) demo_registry(1)
  have "map fst (sse_writes (snd (handleSend demo_env demo_hub 9 ''default'' [body_hello]))) = [1, 3]"
    by (simp add: demo_rooms comp_def)
  moreover from thm2 demo_rooms(3)
  have "sendMessage demo_env demo_hub ''web:nowhere'' ''done'' None =
       (demo_hub, [StoreMessageDirect (bot_message demo_env ''web:nowhere'' ''done'' None)])"
    by (simp add: startsWith_def)
  ultimately show ?thesis
    using demo_run demo_send_text(1) demo_rooms(3) by simp
qed





text \<open>
  C3. In every state the hub can reach, every key of the subscriber table has a non-empty
  list. Opening a stream appends the new subscriber to its room's list; the close event
  of a subscriber removes it from the list and the key is present afterwards exactly when
  the list is still non-empty; shutdown empties the table.
\<close>

theorem subscriber_table_has_no_empty_room:
  assumes "run initial_hub evs = Some s"
  shows
    "no_empty_room (clientsByRoom s)
     \<and> roomClients (step s (Subscribe e rs room)) (''web:'' @ room) =
         roomClients s (''web:'' @ room) @ [\<lparr>res = rs, keepAliveTimer = nextTimer s\<rparr>]
     \<and> roomClients (step s (Close client jid)) jid = filter (\<lambda>c. c \<noteq> client) (roomClients s jid)
     \<and> (Map_has (clientsByRoom (step s (Close client jid))) jid \<longleftrightarrow>
          filter (\<lambda>c. c \<noteq> client) (roomClients s jid) \<noteq> [])
     \<and> no_empty_room (clientsByRoom (step s (Close client jid)))
     \<and> clientsByRoom (step s Shutdown) = []"
proof -
  have wf: "wf_hub s" using assms by (rule run_initial_wf)
  have "wf_hub (step s (Close client jid))"
    using wf by (simp add: wf_on_close)
  then have "no_empty_room (clientsByRoom (step s (Close client jid)))"
    by (rule wf_no_empty_room)
  moreover have "clientsByRoom (step s Shutdown) = []"
    by (simp add: disconnect_def)
  ultimately show ?thesis
    using wf_no_empty_room [OF wf] roomClients_handleSse [of e s rs room]
      roomClients_on_close [of client jid s] Map_has_on_close [of client jid s]
    by simp
qed

theorem subscriber_table_has_no_empty_room_witness:
  "run initial_hub demo_events = Some demo_hub
   \<and> no_empty_room (clientsByRoom demo_hub)
   \<and> roomClients (step demo_hub (Close \<lparr>res = 2, keepAliveTimer = 1\<rparr> ''web:work'')) ''web:work'' = []
   \<and> \<not> Map_has (clientsByRoom (step demo_hub (Close \<lparr>res = 2, keepAliveTimer = 1\<rparr> ''web:work''))) ''web:work''
   \<and> no_empty_room (clientsByRoom (step demo_hub (Close \<lparr>res = 2, keepAliveTimer = 1\<rparr> ''web:work'')))
   \<and> clientsByRoom (step demo_hub Shutdown) = []"
  using subscriber_table_has_no_empty_room [OF demo_run, of demo_env 4 "''default''"
      "\<lparr>res = 2, keepAliveTimer = 1\<rparr>" "''web:work''"] demo_run
  by (simp add: demo_rooms)

text \<open>
  C7. Shutdown cancels the keepalive timer and ends the stream of every subscriber
  registered at the time of the call, and leaves the subscriber table empty (and the hub
  no longer connected).
\<close>

theorem disconnect_ends_every_subscriber:
  "(\<forall>c \<in> set (allClients s).
      ClearInterval (keepAliveTimer c) \<in> set (snd (disconnect s)) \<and>
      End (res c) \<in> set (snd (disconnect s)))
   \<and> clientsByRoom (fst (disconnect s)) = []
   \<and> \<not> connected (fst (disconnect s))"
  by (auto simp: disconnect_def allClients_def dest: end_rooms_effects)

theorem disconnect_ends_every_subscriber_witness:
  "\<lparr>res = 3, keepAliveTimer = 2\<rparr> \<in> set (allClients demo_hub)
   \<and> ClearInterval 2 \<in> set (snd (disconnect demo_hub))
   \<and> End 3 \<in> set (snd (disconnect demo_hub))
   \<and> clientsByRoom (fst (disconnect demo_hub)) = []"
proof -
  have m: "\<lparr>res = 3, keepAliveTimer = 2\<rparr> \<in> set (allClients demo_hub)"
    by (simp add: allClients_def demo_hub_def)
  from disconnect_ends_every_subscriber [of demo_hub] m
  have "ClearInterval (keepAliveTimer \<lparr>res = 3, keepAliveTimer = 2\<rparr>) \<in> set (snd (disconnect demo_hub))
      \<and> End (res \<lparr>res = 3, keepAliveTimer = 2\<rparr>) \<in> set (snd (disconnect demo_hub))
      \<and> clientsByRoom (fst (disconnect demo_hub)) = []"
    by blast
  with m show ?thesis by simp
qed

text \<open>
  C8. A send request that passes the size guard and the text check but names a room that
  is not in the registry is answered 404 and nothing else happens: no message is built,
  neither callback is called, nothing is written to any subscriber, and the hub is
  unchanged.
\<close>

theorem send_to_unknown_room_is_not_found:
  assumes "send_text e chunks = Some t"
    and "registeredGroups e (''web:'' @ room) = None"
  shows "handleSend e s rs room chunks =
           (s, [WriteHead rs 404, EndJson rs (JObj [(''error'', JStr ''Room not found'')])])"
  using handleSend_unknown_room [OF assms] by (simp add: json_error_def)

theorem send_to_unknown_room_is_not_found_witness:
  "send_text demo_env [body_hello] = Some '' hello ''
   \<and> registeredGroups demo_env ''web:nowhere'' = None
   \<and> handleSend demo_env demo_hub 9 ''nowhere'' [body_hello] =
       (demo_hub, [WriteHead 9 404, EndJson 9 (JObj [(''error'', JStr ''Room not found'')])])"
  using send_to_unknown_room_is_not_found [of demo_env "[body_hello]" "'' hello ''" "''nowhere''" demo_hub 9]
    demo_send_text(1) demo_registry(3)
  by simp


text \<open>
  C9, as the code has it. An accepted send request with text \<open>t\<close> to a known room builds
  one message whose content is \<open>t\<close> with the white space at both ends removed (so \<open>t\<close>
  itself when it has none there) and whose room is the room of the request. That one
  message is returned in the body of the 200 response, written to every subscriber of the
  room, and handed to the orchestrator callback and through it to the store, where it is
  appended after the messages already there. So a stream opened on the room before the
  send receives it, and a later history fetch returns it as the newest message of the
  room, with the trimmed content.
\<close>

theorem send_delivers_one_trimmed_message:
  assumes "send_text e chunks = Some t"
    and "registeredGroups e (''web:'' @ room) = Some g"
  shows
    "content (user_message e (''web:'' @ room) t) = trim t
     \<and> (trim t = t \<longrightarrow> content (user_message e (''web:'' @ room) t) = t)
     \<and> chat_jid (user_message e (''web:'' @ room) t) = ''web:'' @ room
     \<and> handleSend e s rs room chunks =
         (s, [OnChatMetadata (''web:'' @ room) (toISOString e) (group_name g) ''web'' False,
              OnMessage (''web:'' @ room) (user_message e (''web:'' @ room) t)]
             @ broadcast (write_accepted e) (roomClients s (''web:'' @ room))
                 (SseEvent ''message'' (message_json (user_message e (''web:'' @ room) t)))
             @ [WriteHead rs 200,
                EndJson rs (JObj [(''ok'', JBool True),
                                  (''message'', message_json (user_message e (''web:'' @ room) t))])])
     \<and> sse_writes (snd (handleSend e s rs room chunks)) =
         map (\<lambda>c. (res c, SseEvent ''message'' (message_json (user_message e (''web:'' @ room) t))))
           (roomClients s (''web:'' @ room))
     \<and> get_prop (message_json (user_message e (''web:'' @ room) t)) ''content'' = Some (JStr (trim t))
     \<and> get_prop (message_json (user_message e (''web:'' @ room) t)) ''chat_jid'' = Some (JStr (''web:'' @ room))
     \<and> persist (snd (handleSend e s rs room chunks)) st =
         store_append (user_message e (''web:'' @ room) t) st
     \<and> store_recent (''web:'' @ room) 50 (persist (snd (handleSend e s rs room chunks)) st) =
         drop (Suc (length (filter (\<lambda>m. chat_jid m = ''web:'' @ room) st)) - 50)
           (filter (\<lambda>m. chat_jid m = ''web:'' @ room) st)
         @ [user_message e (''web:'' @ room) t]
     \<and> handleHistory (with_store e (persist (snd (handleSend e s rs room chunks)) st)) s rs2 room =
         (s, [WriteHead rs2 200,
              EndJson rs2 (JArr (map message_json
                (drop (Suc (length (filter (\<lambda>m. chat_jid m = ''web:'' @ room) st)) - 50)
                   (filter (\<lambda>m. chat_jid m = ''web:'' @ room) st))
                 @ [message_json (user_message e (''web:'' @ room) t)]))])
     \<and> sse_writes (snd (handleSend e (fst (handleSse e s rs1 room)) rs room chunks)) =
         map (\<lambda>c. (res c, SseEvent ''message'' (message_json (user_message e (''web:'' @ room) t))))
           (roomClients s (''web:'' @ room))
         @ [(rs1, SseEvent ''message'' (message_json (user_message e (''web:'' @ room) t)))]"
proof -
  let ?jid = "''web:'' @ room"
  let ?msg = "user_message e ?jid t"
  have jid: "chat_jid ?msg = ?jid" by (simp add: user_message_def)
  have p: "persist (snd (handleSend e s rs room chunks)) st = st @ [?msg]"
    using assms by (rule handleSend_persists)
  have r: "store_recent ?jid 50 (st @ [?msg]) =
         drop (Suc (length (filter (\<lambda>m. chat_jid m = ?jid) st)) - 50)
           (filter (\<lambda>m. chat_jid m = ?jid) st) @ [?msg]"
    using jid by (rule store_recent_append) simp
  have h: "handleHistory (with_store e (st @ [?msg])) s rs2 room =
         (s, [WriteHead rs2 200, EndJson rs2 (JArr (map message_json (store_recent ?jid 50 (st @ [?msg]))))])"
    by (simp add: handleHistory_def with_store_def Let_def)
  have l: "sse_writes (snd (handleSend e (fst (handleSse e s rs1 room)) rs room chunks)) =
         map (\<lambda>c. (res c, SseEvent ''message'' (message_json ?msg))) (roomClients s ?jid)
         @ [(rs1, SseEvent ''message'' (message_json ?msg))]"
    using roomClients_handleSse [of e s rs1 room]
    by (simp add: handleSend_accepted [OF assms] sse_writes_append sse_writes_broadcast)
  have old: "content ?msg = trim t
     \<and> (trim t = t \<longrightarrow> content ?msg = t)
     \<and> chat_jid ?msg = ?jid
     \<and> handleSend e s rs room chunks =
         (s, [OnChatMetadata ?jid (toISOString e) (group_name g) ''web'' False,
              OnMessage ?jid ?msg]
             @ broadcast (write_accepted e) (roomClients s ?jid) (SseEvent ''message'' (message_json ?msg))
             @ [WriteHead rs 200,
                EndJson rs (JObj [(''ok'', JBool True), (''message'', message_json ?msg)])])
     \<and> sse_writes (snd (handleSend e s rs room chunks)) =
         map (\<lambda>c. (res c, SseEvent ''message'' (message_json ?msg))) (roomClients s ?jid)
     \<and> get_prop (message_json ?msg) ''content'' = Some (JStr (trim t))
     \<and> get_prop (message_json ?msg) ''chat_jid'' = Some (JStr ?jid)"
    using handleSend_accepted [OF assms, of s rs]
    by (simp add: user_message_def message_json_def sse_writes_append sse_writes_broadcast)
  have p': "persist (snd (handleSend e s rs room chunks)) st = store_append ?msg st"
    using p by (simp add: store_append_def)
  have r': "store_recent ?jid 50 (persist (snd (handleSend e s rs room chunks)) st) =
         drop (Suc (length (filter (\<lambda>m. chat_jid m = ?jid) st)) - 50)
           (filter (\<lambda>m. chat_jid m = ?jid) st) @ [?msg]"
    using r by (simp only: p)
  have h': "handleHistory (with_store e (persist (snd (handleSend e s rs room chunks)) st)) s rs2 room =
         (s, [WriteHead rs2 200,
              EndJson rs2 (JArr (map message_json
                (drop (Suc (length (filter (\<lambda>m. chat_jid m = ?jid) st)) - 50)
                   (filter (\<lambda>m. chat_jid m = ?jid) st))
                 @ [message_json ?msg]))])"
    using h r by (simp only: p map_append list.map)
  from old p' r' h' l show ?thesis by (intro conjI) (elim conjE; assumption)+
qed

theorem send_delivers_one_trimmed_message_witness:
  "send_text demo_env [body_hello] = Some '' hello ''
   \<and> registeredGroups demo_env ''web:default'' = Some (demo_group ''Web Chat'' ''default'')
   \<and> content (user_message demo_env ''web:default'' '' hello '') = ''hello''
   \<and> sse_writes (snd (handleSend demo_env demo_hub 9 ''default'' [body_hello])) =
       [(1, SseEvent ''message'' (message_json (user_message demo_env ''web:default'' '' hello ''))),
        (3, SseEvent ''message'' (message_json (user_message demo_env ''web:default'' '' hello '')))]
   \<and> persist (snd (handleSend demo_env demo_hub 9 ''default'' [body_hello])) [] =
       [user_message demo_env ''web:default'' '' hello '']
   \<and> handleHistory
         (with_store demo_env (persist (snd (handleSend demo_env demo_hub 9 ''default'' [body_hello])) []))
         demo_hub 8 ''default'' =
       (demo_hub, [WriteHead 8 200,
                   EndJson 8 (JArr [message_json (user_message demo_env ''web:default'' '' hello '')])])"
  using send_delivers_one_trimmed_message [OF demo_send_text(1) demo_registry_at(1), of demo_hub 9 "[]" 8 4]
    demo_send_text(1) demo_registry(1)
  by (simp add: demo_rooms trim_hello store_append_def handleHistory_def with_store_def
      store_recent_def Let_def user_message_def)

text \<open>
  C9 as stated fails: the text \<open> hello \<close>, with a blank on each side, is delivered to the
  orchestrator as \<open>hello\<close>.
\<close>

theorem send_content_not_verbatim_counterexample:
  "send_text demo_env [body_hello] = Some '' hello ''
   \<and> snd (handleSend demo_env initial_hub 9 ''default'' [body_hello]) ! 1 =
       OnMessage ''web:default''
         \<lparr>msg_id = ''web-1704067200000-ab12cd34'', chat_jid = ''web:default'', sender = ''user'',
          sender_name = ''You'', content = ''hello'', timestamp = ''2024-01-01T00:00:00.000Z'',
          is_from_me = True, is_bot_message = False\<rparr>
   \<and> ''hello'' \<noteq> '' hello ''"
  by (simp add: demo_send_text(1) handleSend_accepted [OF demo_send_text(1) demo_registry_at(1)]
      user_message_def trim_hello)
     (simp add: demo_env_def)

text \<open>
  C6, as the code has it. A create-room request whose name derives to an identifier
  already in the registry is answered 409, with an error body that carries the derived
  identifier; the registration callback and the chat-metadata callback are not called and
  the hub is unchanged. (The hub must have been given a registration callback, and the
  request must pass the size guard and the name check.)
\<close>

theorem create_existing_room_conflicts:
  assumes "has_onRegisterGroup e"
    and "create_name e chunks = Some name"
    and "slugify name \<noteq> []"
    and "registeredGroups e (''web:'' @ slugify name) = Some g"
  shows "handleCreateRoom e s rs chunks =
     (s, [WriteHead rs 409,
          EndJson rs (JObj [(''error'', JStr ''Room already exists''),
                            (''slug'', JStr (slugify name))])])"
  using assms by (rule handleCreateRoom_conflict)

theorem create_existing_room_conflicts_witness:
  "has_onRegisterGroup demo_env
   \<and> create_name demo_env [body_work] = Some ''Work''
   \<and> slugify ''Work'' = ''work''
   \<and> registeredGroups demo_env ''web:work'' = Some (demo_group ''Work'' ''work'')
   \<and> handleCreateRoom demo_env demo_hub 9 [body_work] =
       (demo_hub, [WriteHead 9 409,
                   EndJson 9 (JObj [(''error'', JStr ''Room already exists''),
                                    (''slug'', JStr ''work'')])])"
proof -
  have h: "has_onRegisterGroup demo_env" by (simp add: demo_env_def)
  have n: "slugify ''Work'' \<noteq> []" by (simp add: slugify_Work)
  have r: "registeredGroups demo_env (''web:'' @ slugify ''Work'') = Some (demo_group ''Work'' ''work'')"
    by (simp add: slugify_Work demo_registry)
  from create_existing_room_conflicts [OF h demo_create_name n r, of demo_hub 9]
  show ?thesis
    using h demo_create_name demo_registry(2) by (simp add: slugify_Work)
qed

text \<open>
  C6 as stated fails: creating \<open>Work\<close> when \<open>web:work\<close> exists is answered with the
  properties \<open>error\<close> and \<open>slug\<close> only; the name \<open>Work\<close> is not in the response.
\<close>

theorem conflict_response_lacks_name_counterexample:
  "create_name demo_env [body_work] = Some ''Work''
   \<and> snd (handleCreateRoom demo_env demo_hub 9 [body_work]) =
       [WriteHead 9 409,
        EndJson 9 (JObj [(''error'', JStr ''Room already exists''), (''slug'', JStr ''work'')])]
   \<and> JStr ''Work'' \<notin> set (property_values
        (JObj [(''error'', JStr ''Room already exists''), (''slug'', JStr ''work'')]))"
proof -
  have h: "has_onRegisterGroup demo_env" by (simp add: demo_env_def)
  have n: "slugify ''Work'' \<noteq> []" by (simp add: slugify_Work)
  have r: "registeredGroups demo_env (''web:'' @ slugify ''Work'') = Some (demo_group ''Work'' ''work'')"
    by (simp add: slugify_Work demo_registry)
  from handleCreateRoom_conflict [OF h demo_create_name n r, of demo_hub 9]
  show ?thesis
    using demo_create_name by (simp add: slugify_Work)
qed

text \<open>
  C10. Opening a stream answers 200, writes the initial comment, starts a keepalive timer
  and registers a subscriber with that timer at the end of the room's list, and the
  history handler answers 200 with what the store returns for the room, for every room
  identifier and every registry: neither handler reads the registry, and neither has
  another outcome.
\<close>

theorem stream_and_history_need_no_room:
  "snd (handleSse e s rs room) =
     [WriteHead rs 200, Write rs (SseComment ''ok'') (write_accepted e rs), SetInterval (nextTimer s) rs]
   \<and> roomClients (fst (handleSse e s rs room)) (''web:'' @ room) =
       roomClients s (''web:'' @ room) @ [\<lparr>res = rs, keepAliveTimer = nextTimer s\<rparr>]
   \<and> handleHistory e s rs room =
       (s, [WriteHead rs 200, EndJson rs (getRecentMessages e (''web:'' @ room) 50)])
   \<and> handleSse (e\<lparr>registeredGroups := reg\<rparr>) s rs room = handleSse e s rs room
   \<and> handleHistory (e\<lparr>registeredGroups := reg\<rparr>) s rs room = handleHistory e s rs room"
  using roomClients_handleSse [of e s rs room]
  by (simp add: handleSse_def handleHistory_def Let_def)

theorem stream_and_history_need_no_room_witness:
  "registeredGroups demo_env ''web:nowhere'' = None
   \<and> snd (handleSse demo_env demo_hub 4 ''nowhere'') =
       [WriteHead 4 200, Write 4 (SseComment ''ok'') False, SetInterval 3 4]
   \<and> roomClients (fst (handleSse demo_env demo_hub 4 ''nowhere'')) ''web:nowhere'' =
       [\<lparr>res = 4, keepAliveTimer = 3\<rparr>]
   \<and> handleHistory demo_env demo_hub 9 ''nowhere'' = (demo_hub, [WriteHead 9 200, EndJson 9 (JArr [])])"
  using stream_and_history_need_no_room [of demo_env demo_hub 4 "''nowhere''"]
    stream_and_history_need_no_room [of demo_env demo_hub 9 "''nowhere''"]
    demo_registry(3)
  by (simp add: demo_rooms) (simp add: demo_env_def demo_hub_def)

text \<open>
  C4 at a text of three blanks, sent to the known room \<open>web:default\<close>: the request is
  accepted. The chat-metadata callback and the orchestrator callback are called, the
  message, with empty content, is written to both subscribers of the room, and the
  answer is 200.
\<close>

theorem send_blank_text_is_accepted:
  "handleSend demo_env demo_hub 9 ''default'' [body_blank] =
     (demo_hub,
      [OnChatMetadata ''web:default'' ''2024-01-01T00:00:00.000Z'' ''Web Chat'' ''web'' False,
       OnMessage ''web:default'' (user_message demo_env ''web:default'' ''   ''),
       Write 1 (SseEvent ''message'' (message_json (user_message demo_env ''web:default'' ''   ''))) False,
       Write 3 (SseEvent ''message'' (message_json (user_message demo_env ''web:default'' ''   ''))) False,
       WriteHead 9 200,
       EndJson 9 (JObj [(''ok'', JBool True),
                        (''message'', message_json (user_message demo_env ''web:default'' ''   ''))])])
   \<and> content (user_message demo_env ''web:default'' ''   '') = []"
  by (simp add: handleSend_accepted [OF demo_send_text(2) demo_registry_at(1)] demo_rooms
      user_message_def trim_blank)
     (simp add: demo_env_def demo_group_def)


end
